theory Spec2Isabelle
  imports Main
begin

section \<open>JavaScript values used by the prompts\<close>

text \<open>
  A JavaScript string is a sequence of UTF-16 code units; \<open>length\<close>, \<open>substring\<close> and
  \<open>substr\<close> all count code units. It is modelled as a \<^typ>\<open>string\<close>, one \<^typ>\<open>char\<close> per
  code unit. An optional property (\<open>string | undefined\<close>) is a \<^typ>\<open>string option\<close>.
\<close>

abbreviation LF :: char where
  "LF \<equiv> CHR 0x0A"

text \<open>Truthiness of a \<open>string | undefined\<close> value: \<open>undefined\<close> and \<open>''\<close> are falsy.\<close>

definition truthy :: "string option \<Rightarrow> bool" where
  "truthy v = (case v of None \<Rightarrow> False | Some s \<Rightarrow> s \<noteq> [])"

text \<open>
  \<open>String.prototype.substring(start, end)\<close>: both indices are clamped to \<open>[0, length]\<close>
  and swapped when \<open>start > end\<close>.
\<close>

definition substring :: "string \<Rightarrow> int \<Rightarrow> int \<Rightarrow> string" where
  "substring s start end =
     (let len = int (length s);
          finalStart = min (max start 0) len;
          finalEnd = min (max end 0) len;
          from = min finalStart finalEnd;
          to = max finalStart finalEnd
      in take (nat (to - from)) (drop (nat from) s))"

text \<open>
  \<open>String.prototype.substr(start, length)\<close>: a negative start counts from the end, the
  length is clamped to what is left of the string.
\<close>

definition substr :: "string \<Rightarrow> int \<Rightarrow> int \<Rightarrow> string" where
  "substr s start len =
     (let size = int (length s);
          intStart = (if start < 0 then max (size + start) 0 else min start size);
          intLength = min (max len 0) size;
          intEnd = min (intStart + intLength) size
      in take (nat (intEnd - intStart)) (drop (nat intStart) s))"

text \<open>\<open>readline.Key\<close>: the two properties the prompts read.\<close>

record Key =
  name :: "string option"
  sequence :: "string option"

text \<open>
  A keypress event as the handler receives it: \<open>(character, key)\<close>. The handler declares
  the character a \<open>string\<close>, but readline passes \<open>undefined\<close> for an escape-prefixed key
  (Alt and a letter, for one), so the character is a \<^typ>\<open>string option\<close>.
\<close>

type_synonym keypress = "string option \<times> Key"

text \<open>
  What \<open>+=\<close> appends to a string for a \<open>string | undefined\<close> operand: the string itself,
  or the nine letters \<open>undefined\<close>.
\<close>

definition appended :: "string option \<Rightarrow> string" where
  "appended v = (case v of None \<Rightarrow> ''undefined'' | Some s \<Rightarrow> s)"

section \<open>Prompt options\<close>

record IBasePromptOptions =
  question :: string

record IPromptYesNoOptions = IBasePromptOptions +
  defaultValue :: "bool option"

record IPromptPasswordOptions = IBasePromptOptions +
  passwordCharacter :: "string option"

section \<open>The terminal\<close>

text \<open>
  What a prompt sends to \<open>stderr\<close>, in order: \<open>stderr.write(text)\<close>,
  \<open>readline.cursorTo(stderr, x)\<close>, \<open>readline.clearLine(stderr, dir)\<close>,
  \<open>readline.moveCursor(stderr, dx, dy)\<close>, and the two cursor helpers of the loop engine.
\<close>

datatype TermOp =
    Write string
  | CursorTo nat
  | ClearLine int
  | MoveCursor int int
  | HideCursor
  | UnhideCursor

text \<open>All the text written by a list of terminal operations.\<close>

fun written :: "TermOp list \<Rightarrow> string" where
  "written [] = []"
| "written (Write text # ops) = text @ written ops"
| "written (_ # ops) = written ops"

text \<open>
  \<open>_getLineWrapWidth\<close>: \<open>this.stderr.columns ? this.stderr.columns : 80\<close>. The column
  count is \<open>undefined\<close> when \<open>stderr\<close> is not a terminal, and 0 is falsy.
\<close>

definition getLineWrapWidth :: "nat option \<Rightarrow> nat" where
  "getLineWrapWidth columns =
     (case columns of None \<Rightarrow> 80 | Some c \<Rightarrow> if c = 0 then 80 else c)"

section \<open>The interactive loop engine\<close>

text \<open>
  Modelled from the spec: the class \<open>KeyboardLoop\<close> (\<open>./KeyboardLoop\<close>) is not among the
  sources. Its loop state is the \<open>resolved\<close> flag; \<open>resolve()\<close> marks the loop resolved
  and is a no-op on a resolved loop; \<open>hideCursor()\<close> and \<open>unhideCursor()\<close> emit the control
  sequences that hide and show the cursor.
\<close>

record KeyboardLoop =
  resolved :: bool

text \<open>
  Modelled from the spec: \<open>resolveAsync\<close> of the missing \<open>KeyboardLoop\<close>, the \<open>resolve()\<close> of
  section 4.2. It marks the loop resolved; on a resolved loop it changes nothing.
\<close>

definition resolveAsync :: "'a KeyboardLoop_scheme \<Rightarrow> 'a KeyboardLoop_scheme" where
  "resolveAsync loop = loop\<lparr>resolved := True\<rparr>"

text \<open>
  Modelled from the spec: keystrokes are processed one at a time, in arrival order, each
  \<open>onKeypress\<close> running to completion before the next. \<open>deliver\<close> hands one
  event-processing batch to the handler; keystrokes of the batch that follow the resolving
  one still arrive ("keystrokes may still arrive in the same event-processing batch").
\<close>

fun deliver ::
  "('s \<Rightarrow> keypress \<Rightarrow> TermOp list \<times> 's) \<Rightarrow> 's \<Rightarrow> keypress list \<Rightarrow> TermOp list \<times> 's" where
  "deliver onKey loop [] = ([], loop)"
| "deliver onKey loop (ev # evs) =
     (case onKey loop ev of (out, loop1) \<Rightarrow>
        (case deliver onKey loop1 evs of (out', loop2) \<Rightarrow> (out @ out', loop2)))"

text \<open>
  Modelled from the spec: \<open>start()\<close> suspends the caller until the loop signals
  resolution; the caller is woken once the batch that resolved the loop has been processed,
  and the engine has then unsubscribed, so later batches are not delivered. The input is the
  list of batches the terminal will produce; \<open>None\<close> means that the input ran out with the
  loop unresolved, so the caller is still suspended.
\<close>

fun startAsync ::
  "('a KeyboardLoop_scheme \<Rightarrow> keypress \<Rightarrow> TermOp list \<times> 'a KeyboardLoop_scheme) \<Rightarrow>
   'a KeyboardLoop_scheme \<Rightarrow> keypress list list \<Rightarrow> (TermOp list \<times> 'a KeyboardLoop_scheme) option" where
  "startAsync onKey loop [] = None"
| "startAsync onKey loop (batch # batches) =
     (case deliver onKey loop batch of (out, loop1) \<Rightarrow>
        if resolved loop1 then Some (out, loop1)
        else (case startAsync onKey loop1 batches of
                None \<Rightarrow> None
              | Some (out', loop2) \<Rightarrow> Some (out @ out', loop2)))"

section \<open>YesNoKeyboardLoop\<close>

record YesNoKeyboardLoop = KeyboardLoop +
  options :: IPromptYesNoOptions
  result :: "bool option"

text \<open>
  \<open>result: boolean | undefined\<close> is a \<^typ>\<open>bool option\<close>. The password loop below has a
  field \<open>result\<close> too, so this one is written \<open>YesNoKeyboardLoop.result\<close>.
  \<open>newYesNoKeyboardLoop\<close> is the constructor; \<open>onStart\<close> writes the question and the
  suffix and leaves the fields as they are.
\<close>

definition newYesNoKeyboardLoop :: "IPromptYesNoOptions \<Rightarrow> YesNoKeyboardLoop" where
  "newYesNoKeyboardLoop opts = \<lparr>resolved = False, options = opts, YesNoKeyboardLoop.result = None\<rparr>"

definition optionSuffix :: "IPromptYesNoOptions \<Rightarrow> string" where
  "optionSuffix opts =
     (case defaultValue opts of
        Some True \<Rightarrow> ''(Y/n)''
      | Some False \<Rightarrow> ''(y/N)''
      | None \<Rightarrow> ''(y/n)'')"

text \<open>\<open>YesNoKeyboardLoop.onKeypress\<close>, lines 56 to 81.\<close>

definition yesNoOnKeypress ::
  "YesNoKeyboardLoop \<Rightarrow> keypress \<Rightarrow> TermOp list \<times> YesNoKeyboardLoop" where
  "yesNoOnKeypress loop ev =
     (case ev of (character, key) \<Rightarrow>
        if YesNoKeyboardLoop.result loop \<noteq> None then ([], loop)
        else
          (let loop1 =
                 (if name key = Some ''y'' then loop\<lparr>YesNoKeyboardLoop.result := Some True\<rparr>
                  else if name key = Some ''n'' then loop\<lparr>YesNoKeyboardLoop.result := Some False\<rparr>
                  else if name key = Some ''enter'' \<or> name key = Some ''return'' then
                    (if defaultValue (options loop) \<noteq> None
                     then loop\<lparr>YesNoKeyboardLoop.result := defaultValue (options loop)\<rparr>
                     else loop)
                  else loop)
           in case YesNoKeyboardLoop.result loop1 of
                Some r \<Rightarrow> ([Write (if r then ''Yes'' @ [LF] else ''No'' @ [LF])], resolveAsync loop1)
              | None \<Rightarrow> ([], loop1)))"

text \<open>
  \<open>TerminalInput.promptYesNo\<close>: start the loop, and when the caller is woken return
  \<open>keyboardLoop.result!\<close>. The non-null assertion does nothing at run time, so the value
  returned is the field as it is, \<open>undefined\<close> (\<open>None\<close>) included.
\<close>

definition promptYesNo :: "IPromptYesNoOptions \<Rightarrow> keypress list list \<Rightarrow> bool option option" where
  "promptYesNo opts batches =
     map_option (\<lambda>(out, loop). YesNoKeyboardLoop.result loop)
       (startAsync yesNoOnKeypress (newYesNoKeyboardLoop opts) batches)"

section \<open>PasswordKeyboardLoop\<close>

record PasswordKeyboardLoop = KeyboardLoop +
  p_options :: IPromptPasswordOptions \<comment> \<open>the private field \<open>_options\<close>\<close>
  startX :: nat
  printedY :: nat
  lastPrintedLength :: nat
  result :: string

text \<open>
  The loop after the constructor and \<open>onStart\<close>. \<open>onStart\<close> computes \<open>_startX\<close> from the
  styled prefix with \<open>colors\<close> and \<open>AnsiEscape.removeCodes\<close>, which are external: it is the
  length of the last line of the prefix, style codes removed, modulo the wrap width
  (\<open>onStartColumn\<close>). The column it computes is the parameter \<open>x\<close> of
  \<open>newPasswordKeyboardLoop\<close>.
\<close>

definition onStartColumn :: "nat option \<Rightarrow> nat \<Rightarrow> nat" where
  \<comment> \<open>line 114; \<open>visibleLength\<close> is \<open>AnsiEscape.removeCodes(line).length\<close>\<close>
  "onStartColumn columns visibleLength = visibleLength mod getLineWrapWidth columns"

definition newPasswordKeyboardLoop :: "IPromptPasswordOptions \<Rightarrow> nat \<Rightarrow> PasswordKeyboardLoop" where
  "newPasswordKeyboardLoop opts x =
     \<lparr>resolved = False, p_options = opts, startX = x, printedY = 0,
      lastPrintedLength = 0, result = []\<rparr>"

text \<open>
  The printability test of \<open>PasswordKeyboardLoop.onKeypress\<close>, lines 128 to 135. The first
  test is the strict \<open>character === ''\<close>, which an undefined character does not meet.
\<close>

definition printable :: "string option \<Rightarrow> Key \<Rightarrow> bool" where
  "printable character key =
     (if character = Some [] then False
      else if truthy (name key) \<and> length (the (name key)) \<noteq> 1 \<and> name key \<noteq> Some ''space''
        then False
      else if \<not> truthy (name key) \<and> \<not> truthy (sequence key) then False
      else True)"

text \<open>The mask of line 164: \<open>'*'\<close> when the option is undefined, else \<open>substr(0, 1)\<close> of it.\<close>

definition maskOf :: "IPromptPasswordOptions \<Rightarrow> string" where
  "maskOf opts =
     (case passwordCharacter opts of None \<Rightarrow> ''*'' | Some p \<Rightarrow> substr p 0 1)"

text \<open>
  The loop "Restore Y" of lines 148 to 155, run \<open>_printedY\<close> times: to column 0, clear to
  the end of the line when something must be erased, one row up.
\<close>

fun restoreY :: "bool \<Rightarrow> nat \<Rightarrow> TermOp list" where
  "restoreY needsClear 0 = []"
| "restoreY needsClear (Suc n) =
     CursorTo 0 # (if needsClear then [ClearLine 1] else []) @ MoveCursor 0 (- 1)
       # restoreY needsClear n"

text \<open>
  The rendering loop of lines 167 to 183, on the loop variables \<open>i\<close>, \<open>column\<close>,
  \<open>_printedY\<close> and \<open>buffer\<close>; it returns the last three. The wrap width is read again in
  every iteration.
\<close>

function renderLoop ::
  "nat option \<Rightarrow> string \<Rightarrow> string \<Rightarrow> nat \<Rightarrow> nat \<Rightarrow> nat \<Rightarrow> string \<Rightarrow> nat \<times> nat \<times> string" where
  "renderLoop columns maskChar res i column py buffer =
     (if i < length res then
        (if int (column + 1) \<ge> int (getLineWrapWidth columns) - 1
         then renderLoop columns maskChar res (i + 1) 0 (py + 1)
                ((if maskChar = [] then buffer @ substr res (int i) 1 else buffer @ maskChar) @ [LF])
         else renderLoop columns maskChar res (i + 1) (column + 1) py
                (if maskChar = [] then buffer @ substr res (int i) 1 else buffer @ maskChar))
      else (column, py, buffer))"
  by pat_completeness auto
termination
  by (relation "measure (\<lambda>(columns, maskChar, res, i, column, py, buffer). length res - i)") auto

declare renderLoop.simps [simp del]

text \<open>
  The render pass of \<open>PasswordKeyboardLoop.onKeypress\<close>, lines 141 to 191: what it sends
  to the terminal and the loop it leaves.
\<close>

definition renderPass :: "nat option \<Rightarrow> PasswordKeyboardLoop \<Rightarrow> TermOp list \<times> PasswordKeyboardLoop" where
  "renderPass columns loop =
     (let needsClear = length (result loop) < lastPrintedLength loop;
          loop1 = loop\<lparr>lastPrintedLength := length (result loop)\<rparr>
      in case renderLoop columns (maskOf (p_options loop)) (result loop) 0 (startX loop) 0 [] of
           (column, py, buffer) \<Rightarrow>
             ([HideCursor] @ restoreY needsClear (printedY loop)
                @ [CursorTo (startX loop), Write buffer]
                @ (if needsClear then [ClearLine 1] else [])
                @ [UnhideCursor],
              loop1\<lparr>printedY := py\<rparr>))"

text \<open>
  \<open>PasswordKeyboardLoop.onKeypress\<close>, lines 117 to 191. \<open>columns\<close> is \<open>stderr.columns\<close> at
  the time of the keystroke.
\<close>

definition passwordOnKeypress ::
  "nat option \<Rightarrow> PasswordKeyboardLoop \<Rightarrow> keypress \<Rightarrow> TermOp list \<times> PasswordKeyboardLoop" where
  "passwordOnKeypress columns loop ev =
     (case ev of (character, key) \<Rightarrow>
        if name key = Some ''enter'' \<or> name key = Some ''return''
        then ([Write [LF]], resolveAsync loop)
        else
          (let loop1 =
                 (if name key = Some ''backspace''
                  then loop\<lparr>result := substring (result loop) 0 (int (length (result loop)) - 1)\<rparr>
                  else loop);
               loop2 =
                 (if printable character key then loop1\<lparr>result := result loop1 @ appended character\<rparr>
                  else loop1)
           in renderPass columns loop2))"

text \<open>
  \<open>TerminalInput.promptPasswordLine\<close>: start the loop, and when the caller is woken return
  \<open>keyboardLoop.result\<close> as it then is.
\<close>

definition promptPasswordLine ::
  "nat option \<Rightarrow> IPromptPasswordOptions \<Rightarrow> nat \<Rightarrow> keypress list list \<Rightarrow> string option" where
  "promptPasswordLine columns opts x batches =
     map_option (\<lambda>(out, loop). result loop)
       (startAsync (passwordOnKeypress columns) (newPasswordKeyboardLoop opts x) batches)"

section \<open>The confirmation prompt as the specification words it\<close>

text \<open>
  Section 4.3 of the specification, for comparison with \<open>yesNoOnKeypress\<close>: while the prompt
  is Waiting, the keys with a transition are \<open>y\<close>, \<open>n\<close>, and \<open>Enter\<close>/\<open>Return\<close> when a
  default value was configured. \<open>resolvedValue\<close> is the value such a key resolves to, and
  \<open>firstResolvingKey\<close> the first such key of the keystrokes, in arrival order.
\<close>

definition resolvingKey :: "IPromptYesNoOptions \<Rightarrow> keypress \<Rightarrow> bool" where
  "resolvingKey opts ev =
     (name (snd ev) = Some ''y'' \<or> name (snd ev) = Some ''n'' \<or>
      ((name (snd ev) = Some ''enter'' \<or> name (snd ev) = Some ''return'') \<and> defaultValue opts \<noteq> None))"

definition resolvedValue :: "IPromptYesNoOptions \<Rightarrow> keypress \<Rightarrow> bool option" where
  "resolvedValue opts ev =
     (if name (snd ev) = Some ''y'' then Some True
      else if name (snd ev) = Some ''n'' then Some False
      else defaultValue opts)"

definition firstResolvingKey :: "IPromptYesNoOptions \<Rightarrow> keypress list list \<Rightarrow> keypress option" where
  "firstResolvingKey opts batches = find (resolvingKey opts) (concat batches)"

section \<open>Keystrokes as readline reports them\<close>

text \<open>
  The events used in the examples below. For a lower-case letter or a digit readline
  passes the character itself, with the character as key name and as raw sequence
  (\<open>typed\<close> is meant for these keys only); Return is the carriage return (0x0D) with the
  name \<open>return\<close>, Backspace is 0x7F with the name \<open>backspace\<close>, Tab is 0x09 with the name
  \<open>tab\<close>. Alt and \<open>a\<close> arrive as the escape character and \<open>a\<close>: the name is \<open>a\<close>, the
  sequence has both characters, and the character passed is \<open>undefined\<close>.
\<close>

definition typed :: "char \<Rightarrow> keypress" where
  "typed c = (Some [c], \<lparr>name = Some [c], sequence = Some [c]\<rparr>)"

definition returnKey :: keypress where
  "returnKey = (Some [CHR 0x0D], \<lparr>name = Some ''return'', sequence = Some [CHR 0x0D]\<rparr>)"

definition backspaceKey :: keypress where
  "backspaceKey = (Some [CHR 0x7F], \<lparr>name = Some ''backspace'', sequence = Some [CHR 0x7F]\<rparr>)"

definition tabKey :: keypress where
  "tabKey = (Some [CHR 0x09], \<lparr>name = Some ''tab'', sequence = Some [CHR 0x09]\<rparr>)"

definition altAKey :: keypress where
  "altAKey = (None, \<lparr>name = Some ''a'', sequence = Some [CHR 0x1B, CHR ''a'']\<rparr>)"

text \<open>The options of the masked prompt with the mask character \<open>*\<close>, and two plain ones.\<close>

definition starOptions :: IPromptPasswordOptions where
  "starOptions = \<lparr>question = ''Password:'', passwordCharacter = Some ''*''\<rparr>"

definition echoOptions :: IPromptPasswordOptions where
  "echoOptions = \<lparr>question = ''Name:'', passwordCharacter = Some []\<rparr>"

definition noDefault :: IPromptYesNoOptions where
  "noDefault = \<lparr>question = ''Delete?'', defaultValue = None\<rparr>"


section \<open>Facts about the string operations and the rendering loop\<close>

lemma getLineWrapWidth_pos: "0 < getLineWrapWidth columns"
  by (simp add: getLineWrapWidth_def split: option.splits)

lemma onStartColumn_less: "onStartColumn columns visibleLength < getLineWrapWidth columns"
  by (simp add: onStartColumn_def getLineWrapWidth_pos)

lemma substr_index: "i < length s \<Longrightarrow> substr s (int i) 1 = [s ! i]"
  by (cases "drop i s") (auto simp: substr_def Let_def min_def max_def nat_diff_distrib hd_drop_conv_nth
        intro: nth_via_drop[symmetric])

lemma substr_first: "substr p 0 1 = take 1 p"
  by (cases p) (auto simp: substr_def Let_def min_def max_def)

lemma substring_butlast: "substring s 0 (int (length s) - 1) = butlast s"
  by (cases "s = []") (auto simp: substring_def Let_def min_def max_def butlast_conv_take nat_diff_distrib)

lemma wraps_iff:
  "(int (column + 1) \<ge> int (getLineWrapWidth columns) - 1) = (getLineWrapWidth columns - 1 \<le> column + 1)"
  using getLineWrapWidth_pos [of columns] by auto

lemma renderLoop_masked:
  "maskChar \<noteq> [] \<Longrightarrow> LF \<notin> set maskChar \<Longrightarrow>
   filter (\<lambda>c. c \<noteq> LF) (snd (snd (renderLoop columns maskChar res i column py buffer))) =
     filter (\<lambda>c. c \<noteq> LF) buffer @ concat (replicate (length res - i) maskChar)"
proof (induction columns maskChar res i column py buffer rule: renderLoop.induct)
  case (1 columns maskChar res i column py buffer)
  show ?case
  proof (cases "i < length res")
    case False
    then show ?thesis by (simp add: renderLoop.simps)
  next
    case True
    then have step: "length res - i = Suc (length res - (i + 1))" by simp
    have keep: "filter (\<lambda>c. c \<noteq> LF) maskChar = maskChar"
      using "1.prems"(2) by (auto simp: filter_id_conv)
    show ?thesis
    proof (cases "int (column + 1) \<ge> int (getLineWrapWidth columns) - 1")
      case wrap: True
      show ?thesis
        using "1.IH"(1) [OF True wrap "1.prems"] True wrap "1.prems"(1) keep
        by (subst renderLoop.simps) (simp add: step)
    next
      case nowrap: False
      show ?thesis
        using "1.IH"(2) [OF True nowrap "1.prems"] True nowrap "1.prems"(1) keep
        by (subst renderLoop.simps) (simp add: step)
    qed
  qed
qed


lemma renderLoop_echo:
  "filter (\<lambda>c. c \<noteq> LF) (snd (snd (renderLoop columns [] res i column py buffer))) =
     filter (\<lambda>c. c \<noteq> LF) (buffer @ drop i res)"
proof (induction columns "[] :: string" res i column py buffer rule: renderLoop.induct)
  case (1 columns res i column py buffer)
  show ?case
  proof (cases "i < length res")
    case False
    then show ?thesis by (simp add: renderLoop.simps)
  next
    case True
    then have step: "drop i res = res ! i # drop (i + 1) res"
      by (simp add: Cons_nth_drop_Suc)
    show ?thesis
    proof (cases "int (column + 1) \<ge> int (getLineWrapWidth columns) - 1")
      case wrap: True
      show ?thesis
        using "1.hyps"(1) [OF True wrap] True wrap
        by (subst renderLoop.simps) (simp add: step substr_index)
    next
      case nowrap: False
      show ?thesis
        using "1.hyps"(2) [OF True nowrap] True nowrap
        by (subst renderLoop.simps) (simp add: step substr_index)
    qed
  qed
qed

lemma renderLoop_breaks:
  "maskChar \<noteq> [] \<Longrightarrow> LF \<notin> set maskChar \<Longrightarrow>
   length (filter (\<lambda>c. c = LF) (snd (snd (renderLoop columns maskChar res i column py buffer)))) + py =
     length (filter (\<lambda>c. c = LF) buffer) + fst (snd (renderLoop columns maskChar res i column py buffer))"
proof (induction columns maskChar res i column py buffer rule: renderLoop.induct)
  case (1 columns maskChar res i column py buffer)
  show ?case
  proof (cases "i < length res")
    case False
    then show ?thesis by (simp add: renderLoop.simps)
  next
    case True
    have none: "filter (\<lambda>c. c = LF) maskChar = []"
      using "1.prems"(2) by (auto simp: filter_empty_conv)
    show ?thesis
    proof (cases "int (column + 1) \<ge> int (getLineWrapWidth columns) - 1")
      case wrap: True
      show ?thesis
        using "1.IH"(1) [OF True wrap "1.prems"] True wrap "1.prems"(1) none
        by (subst (1 2) renderLoop.simps) simp
    next
      case nowrap: False
      show ?thesis
        using "1.IH"(2) [OF True nowrap "1.prems"] True nowrap "1.prems"(1) none
        by (subst (1 2) renderLoop.simps) simp
    qed
  qed
qed

lemma renderLoop_rows_aux:
  "w = getLineWrapWidth columns - 1 \<Longrightarrow> 0 < w \<Longrightarrow>
   fst (snd (renderLoop columns maskChar res i column py buffer)) =
     py + (min column (w - 1) + (length res - i)) div w"
proof (induction columns maskChar res i column py buffer rule: renderLoop.induct)
  case (1 columns maskChar res i column py buffer)
  note w = \<open>0 < w\<close>
  have cond: "(int (column + 1) \<ge> int (getLineWrapWidth columns) - 1) = (w \<le> column + 1)"
    using "1.prems"(1) getLineWrapWidth_pos [of columns] by auto
  show ?case
  proof (cases "i < length res")
    case False
    have "min column (w - 1) < w" using w by simp
    then have "min column (w - 1) div w = 0" by simp
    with False show ?thesis by (simp add: renderLoop.simps)
  next
    case True
    then have step: "length res - i = Suc (length res - (i + 1))" by simp
    show ?thesis
    proof (cases "int (column + 1) \<ge> int (getLineWrapWidth columns) - 1")
      case wrap: True
      then have m: "min column (w - 1) = w - 1" using w cond by simp
      have "w - 1 + Suc (length res - (i + 1)) = w + (length res - (i + 1))"
        using w by simp
      then have d: "(min column (w - 1) + (length res - i)) div w = Suc ((length res - (i + 1)) div w)"
        using w by (simp only: m step div_add_self1)
      have "fst (snd (renderLoop columns maskChar res i column py buffer)) =
          py + 1 + (length res - (i + 1)) div w"
        using "1.IH"(1) [OF True wrap "1.prems"] True wrap
        by (subst renderLoop.simps) simp
      with d show ?thesis by simp
    next
      case nowrap: False
      then have m: "min column (w - 1) = column" "min (column + 1) (w - 1) = column + 1"
        using w cond by auto
      have "fst (snd (renderLoop columns maskChar res i column py buffer)) =
          py + (column + 1 + (length res - (i + 1))) div w"
        using "1.IH"(2) [OF True nowrap "1.prems"] True nowrap m
        by (subst renderLoop.simps) simp
      then show ?thesis by (simp only: m step) simp
    qed
  qed
qed

lemma renderLoop_rows_narrow:
  "getLineWrapWidth columns = 1 \<Longrightarrow>
   fst (snd (renderLoop columns maskChar res i column py buffer)) = py + (length res - i)"
proof (induction columns maskChar res i column py buffer rule: renderLoop.induct)
  case (1 columns maskChar res i column py buffer)
  show ?case
  proof (cases "i < length res")
    case False
    then show ?thesis by (simp add: renderLoop.simps)
  next
    case True
    have wrap: "int (column + 1) \<ge> int (getLineWrapWidth columns) - 1"
      using "1.prems" by simp
    show ?thesis
      using "1.IH"(1) [OF True wrap "1.prems"] True wrap
      by (subst renderLoop.simps) simp
  qed
qed

lemma written_append: "written (xs @ ys) = written xs @ written ys"
  by (induction xs rule: written.induct) simp_all

lemma written_restoreY: "written (restoreY needsClear n) = []"
  by (induction n) auto

lemma renderPass_written:
  "written (fst (renderPass columns loop)) =
     snd (snd (renderLoop columns (maskOf (p_options loop)) (result loop) 0 (startX loop) 0 []))"
  by (simp add: renderPass_def Let_def written_append written_restoreY split: prod.splits)

lemma renderPass_printedY:
  "printedY (snd (renderPass columns loop)) =
     fst (snd (renderLoop columns (maskOf (p_options loop)) (result loop) 0 (startX loop) 0 []))"
  by (simp add: renderPass_def Let_def split: prod.splits)

lemma renderPass_fields:
  "result (snd (renderPass columns loop)) = result loop"
  "startX (snd (renderPass columns loop)) = startX loop"
  "p_options (snd (renderPass columns loop)) = p_options loop"
  "resolved (snd (renderPass columns loop)) = resolved loop"
  "lastPrintedLength (snd (renderPass columns loop)) = length (result loop)"
  by (simp_all add: renderPass_def Let_def split: prod.splits)

lemma backspace_not_printable: "name key = Some ''backspace'' \<Longrightarrow> \<not> printable character key"
  by (simp add: printable_def truthy_def)

lemma enter_not_printable:
  "name key = Some ''enter'' \<or> name key = Some ''return'' \<Longrightarrow> \<not> printable character key"
  by (auto simp: printable_def truthy_def)

lemma printable_rule_defined:
  "printable (Some text) key \<longleftrightarrow>
     text \<noteq> [] \<and>
     (\<not> truthy (name key) \<or> (\<exists>n. name key = Some n \<and> length n = 1) \<or> name key = Some ''space'') \<and>
     (truthy (name key) \<or> truthy (sequence key))"
  by (cases "name key") (auto simp: printable_def truthy_def)

lemma printable_rule_undefined:
  "printable None key \<longleftrightarrow>
     (\<not> truthy (name key) \<or> (\<exists>n. name key = Some n \<and> length n = 1) \<or> name key = Some ''space'') \<and>
     (truthy (name key) \<or> truthy (sequence key))"
  by (cases "name key") (auto simp: printable_def truthy_def)

lemma passwordOnKeypress_result:
  "result (snd (passwordOnKeypress columns loop (character, key))) =
     (if name key = Some ''enter'' \<or> name key = Some ''return'' then result loop
      else (if name key = Some ''backspace'' then butlast (result loop) else result loop)
             @ (if printable character key then appended character else []))"
  by (simp add: passwordOnKeypress_def Let_def renderPass_fields resolveAsync_def substring_butlast)

lemma concat_replicate_single: "concat (replicate n [c]) = replicate n c"
  by (induction n) simp_all

lemma maskOf_cases:
  "passwordCharacter opts = None \<Longrightarrow> maskOf opts = ''*''"
  "passwordCharacter opts = Some [] \<Longrightarrow> maskOf opts = []"
  "passwordCharacter opts = Some (c # cs) \<Longrightarrow> maskOf opts = [c]"
  by (simp_all add: maskOf_def substr_first)

lemma renderPass_single_mask:
  "maskOf (p_options loop) = [c] \<Longrightarrow> c \<noteq> LF \<Longrightarrow>
   filter (\<lambda>c. c \<noteq> LF) (written (fst (renderPass columns loop))) = replicate (length (result loop)) c"
  by (simp add: renderPass_written renderLoop_masked concat_replicate_single)

lemma renderPass_rows:
  "0 < getLineWrapWidth columns - 1 \<Longrightarrow>
   printedY (snd (renderPass columns loop)) =
     (min (startX loop) (getLineWrapWidth columns - 1 - 1) + length (result loop))
        div (getLineWrapWidth columns - 1)"
  by (simp add: renderPass_printedY renderLoop_rows_aux [OF refl])

lemma renderLoop_breaks_mask:
  "maskChar \<noteq> [] \<Longrightarrow>
   length (filter (\<lambda>c. c = LF) (snd (snd (renderLoop columns maskChar res i column py buffer)))) + py =
     length (filter (\<lambda>c. c = LF) buffer) + fst (snd (renderLoop columns maskChar res i column py buffer))
       + (length res - i) * length (filter (\<lambda>c. c = LF) maskChar)"
proof (induction columns maskChar res i column py buffer rule: renderLoop.induct)
  case (1 columns maskChar res i column py buffer)
  show ?case
  proof (cases "i < length res")
    case False
    then show ?thesis by (simp add: renderLoop.simps)
  next
    case True
    then have step: "length res - i = Suc (length res - (i + 1))" by simp
    show ?thesis
    proof (cases "int (column + 1) \<ge> int (getLineWrapWidth columns) - 1")
      case wrap: True
      show ?thesis
        using "1.IH"(1) [OF True wrap "1.prems"] True wrap "1.prems"
        by (subst (1 2) renderLoop.simps) (simp add: step)
    next
      case nowrap: False
      show ?thesis
        using "1.IH"(2) [OF True nowrap "1.prems"] True nowrap "1.prems"
        by (subst (1 2) renderLoop.simps) (simp add: step)
    qed
  qed
qed

lemma renderLoop_breaks_echo:
  "length (filter (\<lambda>c. c = LF) (snd (snd (renderLoop columns [] res i column py buffer)))) + py =
     length (filter (\<lambda>c. c = LF) buffer) + fst (snd (renderLoop columns [] res i column py buffer))
       + length (filter (\<lambda>c. c = LF) (drop i res))"
proof (induction columns "[] :: string" res i column py buffer rule: renderLoop.induct)
  case (1 columns res i column py buffer)
  show ?case
  proof (cases "i < length res")
    case False
    then show ?thesis by (simp add: renderLoop.simps)
  next
    case True
    then have step: "drop i res = res ! i # drop (i + 1) res"
      by (simp add: Cons_nth_drop_Suc)
    show ?thesis
    proof (cases "int (column + 1) \<ge> int (getLineWrapWidth columns) - 1")
      case wrap: True
      show ?thesis
        using "1.hyps"(1) [OF True wrap] True wrap
        by (subst (1 2) renderLoop.simps) (cases "res ! i = LF"; simp add: step substr_index)
    next
      case nowrap: False
      show ?thesis
        using "1.hyps"(2) [OF True nowrap] True nowrap
        by (subst (1 2) renderLoop.simps) (cases "res ! i = LF"; simp add: step substr_index)
    qed
  qed
qed

lemma renderPass_breaks_all:
  "length (filter (\<lambda>c. c = LF) (written (fst (renderPass columns loop)))) =
     printedY (snd (renderPass columns loop)) +
       (if maskOf (p_options loop) = [] then length (filter (\<lambda>c. c = LF) (result loop))
        else length (result loop) * length (filter (\<lambda>c. c = LF) (maskOf (p_options loop))))"
proof (cases "maskOf (p_options loop) = []")
  case True
  then show ?thesis
    using renderLoop_breaks_echo [of columns "result loop" 0 "startX loop" 0 "[]"]
    by (simp add: renderPass_written renderPass_printedY)
next
  case False
  then show ?thesis
    using renderLoop_breaks_mask [of "maskOf (p_options loop)" columns "result loop" 0 "startX loop" 0 "[]"]
    by (simp add: renderPass_written renderPass_printedY)
qed

lemma renderPass_breaks:
  "maskOf (p_options loop) \<noteq> [] \<Longrightarrow> LF \<notin> set (maskOf (p_options loop)) \<Longrightarrow>
   length (filter (\<lambda>c. c = LF) (written (fst (renderPass columns loop)))) =
     printedY (snd (renderPass columns loop))"
  using renderLoop_breaks [of "maskOf (p_options loop)" columns "result loop" 0 "startX loop" 0 "[]"]
  by (simp add: renderPass_written renderPass_printedY)

section \<open>Facts about the loop engine and the two keypress handlers\<close>

lemma deliver_Cons_snd:
  "snd (deliver onKey loop (ev # evs)) = snd (deliver onKey (snd (onKey loop ev)) evs)"
  by (simp split: prod.splits)

lemma find_app:
  "find P (xs @ ys) = (case find P xs of None \<Rightarrow> find P ys | Some x \<Rightarrow> Some x)"
  by (induction xs) simp_all

lemma startAsync_Cons:
  "startAsync onKey loop (batch # batches) =
     (if resolved (snd (deliver onKey loop batch)) then Some (deliver onKey loop batch)
      else map_option (\<lambda>(out', loop2). (fst (deliver onKey loop batch) @ out', loop2))
             (startAsync onKey (snd (deliver onKey loop batch)) batches))"
  by (simp split: prod.splits option.splits)

lemma yesNo_guard: "YesNoKeyboardLoop.result loop \<noteq> None \<Longrightarrow> yesNoOnKeypress loop ev = ([], loop)"
  by (simp add: yesNoOnKeypress_def split: prod.splits)

lemma yesNo_step:
  "YesNoKeyboardLoop.result loop = None \<Longrightarrow>
   snd (yesNoOnKeypress loop ev) =
     (if resolvingKey (options loop) ev
      then resolveAsync (loop\<lparr>YesNoKeyboardLoop.result := resolvedValue (options loop) ev\<rparr>)
      else loop)"
  by (cases ev)
     (auto simp: yesNoOnKeypress_def resolvingKey_def resolvedValue_def Let_def split: option.splits)

lemma yesNo_deliver_guard:
  "YesNoKeyboardLoop.result loop \<noteq> None \<Longrightarrow> deliver yesNoOnKeypress loop evs = ([], loop)"
  by (induction evs) (simp_all add: yesNo_guard)

lemma resolvedValue_defined: "resolvingKey opts ev \<Longrightarrow> resolvedValue opts ev \<noteq> None"
  by (auto simp: resolvingKey_def resolvedValue_def)

lemma yesNo_deliver:
  "YesNoKeyboardLoop.result loop = None \<Longrightarrow>
   snd (deliver yesNoOnKeypress loop evs) =
     (case find (resolvingKey (options loop)) evs of
        None \<Rightarrow> loop
      | Some ev \<Rightarrow> resolveAsync (loop\<lparr>YesNoKeyboardLoop.result := resolvedValue (options loop) ev\<rparr>))"
proof (induction evs arbitrary: loop)
  case Nil
  then show ?case by simp
next
  case (Cons ev evs)
  show ?case
  proof (cases "resolvingKey (options loop) ev")
    case True
    let ?l = "resolveAsync (loop\<lparr>YesNoKeyboardLoop.result := resolvedValue (options loop) ev\<rparr>)"
    have "YesNoKeyboardLoop.result ?l \<noteq> None"
      using resolvedValue_defined [OF True] by (simp add: resolveAsync_def)
    then have "deliver yesNoOnKeypress ?l evs = ([], ?l)" by (rule yesNo_deliver_guard)
    moreover have "snd (yesNoOnKeypress loop ev) = ?l"
      using Cons.prems True by (simp add: yesNo_step)
    ultimately show ?thesis using True by (simp only: deliver_Cons_snd) simp
  next
    case False
    then have "snd (yesNoOnKeypress loop ev) = loop"
      using Cons.prems by (simp add: yesNo_step)
    then show ?thesis using False Cons.IH [OF Cons.prems] by (simp only: deliver_Cons_snd) simp
  qed
qed

lemma yesNo_startAsync:
  "YesNoKeyboardLoop.result loop = None \<Longrightarrow> \<not> resolved loop \<Longrightarrow>
   map_option (\<lambda>(out, l). YesNoKeyboardLoop.result l) (startAsync yesNoOnKeypress loop batches) =
     map_option (resolvedValue (options loop)) (find (resolvingKey (options loop)) (concat batches))"
proof (induction batches)
  case Nil
  then show ?case by simp
next
  case (Cons batch batches)
  show ?case
  proof (cases "find (resolvingKey (options loop)) batch")
    case None
    then have "snd (deliver yesNoOnKeypress loop batch) = loop"
      using Cons.prems(1) by (simp add: yesNo_deliver)
    then show ?thesis
      using None Cons by (simp add: startAsync_Cons find_app option.map_comp comp_def split_def del: startAsync.simps)
  next
    case (Some ev)
    then have "snd (deliver yesNoOnKeypress loop batch) =
        resolveAsync (loop\<lparr>YesNoKeyboardLoop.result := resolvedValue (options loop) ev\<rparr>)"
      using Cons.prems(1) by (simp add: yesNo_deliver)
    then show ?thesis
      using Some by (simp add: startAsync_Cons find_app resolveAsync_def split_def del: startAsync.simps)
  qed
qed

lemma promptYesNo_eq:
  "promptYesNo opts batches = map_option (resolvedValue opts) (firstResolvingKey opts batches)"
  using yesNo_startAsync [of "newYesNoKeyboardLoop opts" batches]
  by (simp add: promptYesNo_def firstResolvingKey_def newYesNoKeyboardLoop_def)

lemma yesNo_step_defined:
  "(resolved loop \<longrightarrow> YesNoKeyboardLoop.result loop \<noteq> None) \<Longrightarrow>
   resolved (snd (yesNoOnKeypress loop ev)) \<longrightarrow> YesNoKeyboardLoop.result (snd (yesNoOnKeypress loop ev)) \<noteq> None"
  by (cases ev) (auto simp: yesNoOnKeypress_def Let_def resolveAsync_def split: option.splits)

lemma yesNo_deliver_defined:
  "(resolved loop \<longrightarrow> YesNoKeyboardLoop.result loop \<noteq> None) \<Longrightarrow>
   resolved (snd (deliver yesNoOnKeypress loop evs)) \<longrightarrow>
     YesNoKeyboardLoop.result (snd (deliver yesNoOnKeypress loop evs)) \<noteq> None"
proof (induction evs arbitrary: loop)
  case Nil
  then show ?case by simp
next
  case (Cons ev evs)
  show ?case
    using Cons.IH [OF yesNo_step_defined [OF Cons.prems, of ev]]
    by (simp only: deliver_Cons_snd)
qed

lemma startAsync_resolved:
  "startAsync onKey loop batches = Some (out, loop') \<Longrightarrow> resolved loop'"
proof (induction batches arbitrary: loop out)
  case Nil
  then show ?case by simp
next
  case (Cons batch batches)
  then show ?case
    by (auto simp: startAsync_Cons simp del: startAsync.simps split: if_splits)
qed

lemma yesNo_startAsync_defined:
  "(resolved loop \<longrightarrow> YesNoKeyboardLoop.result loop \<noteq> None) \<Longrightarrow>
   startAsync yesNoOnKeypress loop batches = Some (out, loop') \<Longrightarrow>
   YesNoKeyboardLoop.result loop' \<noteq> None"
proof (induction batches arbitrary: loop out)
  case Nil
  then show ?case by simp
next
  case (Cons batch batches)
  note inv = yesNo_deliver_defined [OF Cons.prems(1), of batch]
  show ?case
  proof (cases "resolved (snd (deliver yesNoOnKeypress loop batch))")
    case True
    then show ?thesis using Cons.prems(2) inv
      by (auto simp: startAsync_Cons simp del: startAsync.simps)
  next
    case False
    then obtain out' where "startAsync yesNoOnKeypress (snd (deliver yesNoOnKeypress loop batch)) batches = Some (out', loop')"
      using Cons.prems(2) by (auto simp: startAsync_Cons simp del: startAsync.simps)
    then show ?thesis using Cons.IH [OF inv] by blast
  qed
qed

lemma renderPass_settled:
  "lastPrintedLength (snd (renderPass columns loop)) = length (result (snd (renderPass columns loop))) \<and>
   printedY (snd (renderPass columns loop)) =
     fst (snd (renderLoop columns (maskOf (p_options (snd (renderPass columns loop))))
            (result (snd (renderPass columns loop))) 0 (startX (snd (renderPass columns loop))) 0 []))"
  by (simp add: renderPass_fields renderPass_printedY)

lemma passwordOnKeypress_settled:
  assumes "lastPrintedLength loop = length (result loop) \<and>
     printedY loop = fst (snd (renderLoop columns (maskOf (p_options loop)) (result loop) 0 (startX loop) 0 []))"
  shows "lastPrintedLength (snd (passwordOnKeypress columns loop ev)) =
       length (result (snd (passwordOnKeypress columns loop ev))) \<and>
     printedY (snd (passwordOnKeypress columns loop ev)) =
       fst (snd (renderLoop columns (maskOf (p_options (snd (passwordOnKeypress columns loop ev))))
            (result (snd (passwordOnKeypress columns loop ev))) 0
            (startX (snd (passwordOnKeypress columns loop ev))) 0 []))"
proof (cases ev)
  case (Pair character key)
  show ?thesis
  proof (cases "name key = Some ''enter'' \<or> name key = Some ''return''")
    case True
    then show ?thesis using assms Pair by (simp add: passwordOnKeypress_def resolveAsync_def)
  next
    case False
    then show ?thesis
      unfolding Pair passwordOnKeypress_def Let_def
      by (simp only: prod.case if_False renderPass_settled)
  qed
qed

lemma deliver_settled:
  assumes "lastPrintedLength loop = length (result loop) \<and>
     printedY loop = fst (snd (renderLoop columns (maskOf (p_options loop)) (result loop) 0 (startX loop) 0 []))"
  shows "lastPrintedLength (snd (deliver (passwordOnKeypress columns) loop evs)) =
       length (result (snd (deliver (passwordOnKeypress columns) loop evs))) \<and>
     printedY (snd (deliver (passwordOnKeypress columns) loop evs)) =
       fst (snd (renderLoop columns (maskOf (p_options (snd (deliver (passwordOnKeypress columns) loop evs))))
            (result (snd (deliver (passwordOnKeypress columns) loop evs))) 0
            (startX (snd (deliver (passwordOnKeypress columns) loop evs))) 0 []))"
  using assms
proof (induction evs arbitrary: loop)
  case Nil
  then show ?case by simp
next
  case (Cons ev evs)
  show ?case
    using Cons.IH [OF passwordOnKeypress_settled [OF Cons.prems, of ev]]
    by (simp only: deliver_Cons_snd)
qed

lemma new_settled:
  "lastPrintedLength (newPasswordKeyboardLoop opts x) = length (result (newPasswordKeyboardLoop opts x)) \<and>
   printedY (newPasswordKeyboardLoop opts x) =
     fst (snd (renderLoop columns (maskOf (p_options (newPasswordKeyboardLoop opts x)))
            (result (newPasswordKeyboardLoop opts x)) 0 (startX (newPasswordKeyboardLoop opts x)) 0 []))"
  by (simp add: newPasswordKeyboardLoop_def renderLoop.simps)

lemma renderPass_settled_same:
  assumes "lastPrintedLength loop = length (result loop) \<and>
     printedY loop = fst (snd (renderLoop columns (maskOf (p_options loop)) (result loop) 0 (startX loop) 0 []))"
  shows "snd (renderPass columns loop) = loop"
  using assms by (simp add: renderPass_def Let_def split: prod.splits)

lemma idle_key_rerenders:
  "\<not> (name key = Some ''enter'' \<or> name key = Some ''return'') \<Longrightarrow> name key \<noteq> Some ''backspace'' \<Longrightarrow>
   \<not> printable character key \<Longrightarrow>
   passwordOnKeypress columns loop (character, key) = renderPass columns loop"
  by (simp add: passwordOnKeypress_def)

lemma deliver_append_snd:
  "snd (deliver onKey loop (evs @ evs')) = snd (deliver onKey (snd (deliver onKey loop evs)) evs')"
proof (induction evs arbitrary: loop)
  case Nil
  show ?case by simp
next
  case (Cons ev evs)
  show ?case
    using Cons.IH [of "snd (onKey loop ev)"]
    by (simp only: append_Cons deliver_Cons_snd)
qed

lemma enter_resolves:
  "name key = Some ''enter'' \<or> name key = Some ''return'' \<Longrightarrow>
   passwordOnKeypress columns loop (character, key) = ([Write [LF]], resolveAsync loop)"
  by (simp add: passwordOnKeypress_def)

lemma promptPasswordLine_return_last:
  assumes "name (snd ev) = Some ''enter'' \<or> name (snd ev) = Some ''return''"
  shows "promptPasswordLine columns opts x [evs @ [ev]] =
           Some (result (snd (deliver (passwordOnKeypress columns) (newPasswordKeyboardLoop opts x) evs)))"
proof -
  let ?before = "snd (deliver (passwordOnKeypress columns) (newPasswordKeyboardLoop opts x) evs)"
  have "snd (deliver (passwordOnKeypress columns) (newPasswordKeyboardLoop opts x) (evs @ [ev])) =
      resolveAsync ?before"
    using assms enter_resolves [of "snd ev" columns ?before "fst ev"]
    by (simp add: deliver_append_snd)
  then show ?thesis
    by (simp add: promptPasswordLine_def startAsync_Cons resolveAsync_def split_def del: startAsync.simps)
qed

text \<open>The equations that evaluate the two loops on concrete keystrokes.\<close>

lemmas run_defs =
  passwordOnKeypress_def newPasswordKeyboardLoop_def printable_def truthy_def renderPass_def
  maskOf_def renderLoop.simps getLineWrapWidth_def substr_def substring_def Let_def
  typed_def returnKey_def backspaceKey_def tabKey_def resolveAsync_def starOptions_def
  appended_def


section \<open>The claims\<close>

subsection \<open>C1: what the confirmation prompt resolves to\<close>

text \<open>
  Claim C1. For every sequence of keystrokes fed to the confirmation prompt, in whatever
  batches they arrive, \<open>promptYesNo\<close> returns \<open>true\<close> exactly when the first resolving key
  was \<open>y\<close>, or \<open>Enter\<close>/\<open>Return\<close> with a configured default of \<open>true\<close>; it returns \<open>false\<close>
  exactly when that key was \<open>n\<close>, or \<open>Enter\<close>/\<open>Return\<close> with the default \<open>false\<close>; and with
  no default configured an \<open>Enter\<close>/\<open>Return\<close> keystroke writes nothing and leaves the loop
  as it was, so the prompt stays Waiting.
\<close>

theorem promptYesNo_first_resolving_key:
  "(promptYesNo opts batches = Some (Some True) \<longleftrightarrow>
      (\<exists>ev. firstResolvingKey opts batches = Some ev \<and>
         (name (snd ev) = Some ''y'' \<or>
          ((name (snd ev) = Some ''enter'' \<or> name (snd ev) = Some ''return'') \<and>
             defaultValue opts = Some True)))) \<and>
   (promptYesNo opts batches = Some (Some False) \<longleftrightarrow>
      (\<exists>ev. firstResolvingKey opts batches = Some ev \<and>
         (name (snd ev) = Some ''n'' \<or>
          ((name (snd ev) = Some ''enter'' \<or> name (snd ev) = Some ''return'') \<and>
             defaultValue opts = Some False)))) \<and>
   (defaultValue (options loop) = None \<and> (name key = Some ''enter'' \<or> name key = Some ''return'') \<longrightarrow>
      yesNoOnKeypress loop (character, key) = ([], loop))"
proof -
  have verdict: "resolvingKey opts ev \<Longrightarrow>
      (resolvedValue opts ev = Some True \<longleftrightarrow>
         name (snd ev) = Some ''y'' \<or>
          ((name (snd ev) = Some ''enter'' \<or> name (snd ev) = Some ''return'') \<and>
             defaultValue opts = Some True)) \<and>
      (resolvedValue opts ev = Some False \<longleftrightarrow>
         name (snd ev) = Some ''n'' \<or>
          ((name (snd ev) = Some ''enter'' \<or> name (snd ev) = Some ''return'') \<and>
             defaultValue opts = Some False))" for ev
    by (auto simp: resolvingKey_def resolvedValue_def)
  have first: "firstResolvingKey opts batches = Some ev \<Longrightarrow> resolvingKey opts ev" for ev
    by (auto simp: firstResolvingKey_def find_Some_iff)
  have stay: "defaultValue (options loop) = None \<and> (name key = Some ''enter'' \<or> name key = Some ''return'') \<longrightarrow>
      yesNoOnKeypress loop (character, key) = ([], loop)"
    by (auto simp: yesNoOnKeypress_def Let_def split: option.splits)
  show ?thesis
    using verdict first stay by (auto simp: promptYesNo_eq)
qed

text \<open>
  The second scenario of the specification: no default, the keys \<open>Enter\<close>, \<open>Enter\<close>, \<open>n\<close>
  (and a \<open>y\<close> behind them); the two \<open>Enter\<close> keys are ignored and the answer is \<open>false\<close>.
\<close>

theorem promptYesNo_first_resolving_key_witness:
  "firstResolvingKey noDefault [[returnKey, returnKey], [typed CHR ''n'', typed CHR ''y'']] =
     Some (typed CHR ''n'') \<and>
   promptYesNo noDefault [[returnKey, returnKey], [typed CHR ''n'', typed CHR ''y'']] = Some (Some False) \<and>
   promptYesNo noDefault [[returnKey, returnKey], [typed CHR ''n'', typed CHR ''y'']] \<noteq> Some (Some True) \<and>
   yesNoOnKeypress (newYesNoKeyboardLoop noDefault) returnKey = ([], newYesNoKeyboardLoop noDefault)"
  using promptYesNo_first_resolving_key
    [where opts = noDefault
       and batches = "[[returnKey, returnKey], [typed CHR ''n'', typed CHR ''y'']]"
       and loop = "newYesNoKeyboardLoop noDefault"
       and key = "snd returnKey" and character = "fst returnKey"]
  by (simp add: firstResolvingKey_def resolvingKey_def typed_def returnKey_def noDefault_def
        newYesNoKeyboardLoop_def)

subsection \<open>C2: what the masked prompt returns\<close>

text \<open>
  Claim C2. When \<open>Enter\<close>/\<open>Return\<close> arrives the masked prompt writes a line break and
  resolves, and \<open>promptPasswordLine\<close> is to return the buffer as it was at that keystroke.
  \<open>PasswordKeyboardLoop.onKeypress\<close> has no guard against keystrokes that arrive after the
  loop resolved (\<open>YesNoKeyboardLoop.onKeypress\<close> has one, in its first line), and the
  facade reads \<open>keyboardLoop.result\<close> only when it is woken. With the keys \<open>a\<close>, \<open>Return\<close>,
  \<open>b\<close> in one batch the buffer is \<open>a\<close> when \<open>Return\<close> arrives, and the string returned is
  \<open>ab\<close>. (\<open>promptPasswordLine_return_last\<close> above is the case that works: \<open>Return\<close> is
  the last key of its batch.)
\<close>

theorem promptPasswordLine_keys_after_return:
  "result (snd (deliver (passwordOnKeypress (Some 80)) (newPasswordKeyboardLoop starOptions 5)
                  [typed CHR ''a''])) = ''a'' \<and>
   deliver (passwordOnKeypress (Some 80)) (newPasswordKeyboardLoop starOptions 5)
       [typed CHR ''a'', returnKey] =
     ([HideCursor, CursorTo 5, Write ''*'', UnhideCursor, Write [LF]],
      \<lparr>resolved = True, p_options = starOptions, startX = 5, printedY = 0,
         lastPrintedLength = 1, result = ''a''\<rparr>) \<and>
   promptPasswordLine (Some 80) starOptions 5 [[typed CHR ''a'', returnKey, typed CHR ''b'']] =
     Some ''ab''"
  by (simp add: run_defs promptPasswordLine_def)

subsection \<open>C3: the masked rendering\<close>

text \<open>
  Claim C3. With the mask character \<open>*\<close>, at every terminal width and from every state of
  the loop (so after every sequence of keystrokes), a printable keystroke appends its
  character to the buffer (for an undefined character, what \<open>+=\<close> appends), and what the
  keystroke writes, with the line breaks removed, is one \<open>*\<close> for each code unit of the
  buffer and nothing else.
\<close>

theorem masked_render_stars:
  assumes "printable character key"
    and "passwordCharacter (p_options loop) = Some ''*''"
  shows "filter (\<lambda>c. c \<noteq> LF) (written (fst (passwordOnKeypress columns loop (character, key)))) =
           replicate (length (result (snd (passwordOnKeypress columns loop (character, key))))) CHR ''*'' \<and>
         result (snd (passwordOnKeypress columns loop (character, key))) =
           result loop @ appended character \<and>
         (\<forall>text. character = Some text \<longrightarrow>
            result (snd (passwordOnKeypress columns loop (character, key))) = result loop @ text)"
proof -
  have key: "\<not> (name key = Some ''enter'' \<or> name key = Some ''return'')" "name key \<noteq> Some ''backspace''"
    using assms(1) enter_not_printable backspace_not_printable by blast+
  have run: "passwordOnKeypress columns loop (character, key) =
               renderPass columns (loop\<lparr>result := result loop @ appended character\<rparr>)"
    using key assms(1) by (simp add: passwordOnKeypress_def)
  have "maskOf (p_options (loop\<lparr>result := result loop @ appended character\<rparr>)) = ''*''"
    using assms(2) by (simp add: maskOf_cases)
  then show ?thesis
    by (simp only: run renderPass_fields) (auto simp: renderPass_single_mask appended_def)
qed

text \<open>Width 3, start column 0, the buffer \<open>ab\<close> and the key \<open>c\<close>: three stars.\<close>

theorem masked_render_stars_witness:
  "printable (fst (typed CHR ''c'')) (snd (typed CHR ''c'')) \<and>
   passwordCharacter (p_options ((newPasswordKeyboardLoop starOptions 0)\<lparr>result := ''ab''\<rparr>)) = Some ''*'' \<and>
   filter (\<lambda>c. c \<noteq> LF)
     (written (fst (passwordOnKeypress (Some 3) ((newPasswordKeyboardLoop starOptions 0)\<lparr>result := ''ab''\<rparr>)
        (fst (typed CHR ''c''), snd (typed CHR ''c''))))) = ''***''"
proof -
  have p: "printable (fst (typed CHR ''c'')) (snd (typed CHR ''c''))"
    by (simp add: typed_def printable_def truthy_def)
  have m: "passwordCharacter (p_options ((newPasswordKeyboardLoop starOptions 0)\<lparr>result := ''ab''\<rparr>)) = Some ''*''"
    by (simp add: newPasswordKeyboardLoop_def starOptions_def)
  have "replicate (length (''ab'' @ appended (fst (typed CHR ''c'')))) CHR ''*'' = ''***''"
    by (simp add: typed_def appended_def)
  with masked_render_stars [OF p m, of "Some 3"] p m show ?thesis
    by (simp add: newPasswordKeyboardLoop_def)
qed

subsection \<open>C4: the number of line breaks\<close>

text \<open>
  Claim C4, as stated, fails in two places. At width 10, start column 9 and a buffer of
  length 1 the law gives \<open>(9 + 1) div 9 - 9 div 9 = 0\<close> line breaks, and the render pass
  emits one, because the column is already \<open>W - 1\<close> when the first character is written.
  Start column 9 is what \<open>onStart\<close> computes at width 10 for the question \<open>Name\<close>, whose
  prefix \<open>==> Name\<close> and a space has nine columns. And when the mask character is itself a
  line break, at width 80, start column 5 and a buffer of length 1, the law gives 0 while
  the text written is one line break, the mask.
\<close>

theorem wrap_count_law_counterexample:
  "onStartColumn (Some 10) (length (''==> '' @ ''Name'' @ '' '')) = 9 \<and>
   count_list (written (fst (passwordOnKeypress (Some 10) (newPasswordKeyboardLoop starOptions 9)
       (typed CHR ''a'')))) LF
     \<noteq> (9 + length ''a'') div (getLineWrapWidth (Some 10) - 1) - 9 div (getLineWrapWidth (Some 10) - 1) \<and>
   printedY (snd (passwordOnKeypress (Some 10) (newPasswordKeyboardLoop starOptions 9) (typed CHR ''a'')))
     \<noteq> (9 + length ''a'') div (getLineWrapWidth (Some 10) - 1) - 9 div (getLineWrapWidth (Some 10) - 1) \<and>
   count_list (written (fst (passwordOnKeypress (Some 80)
       (newPasswordKeyboardLoop \<lparr>question = ''Password:'', passwordCharacter = Some [LF]\<rparr> 5)
       (typed CHR ''a'')))) LF
     \<noteq> (5 + length ''a'') div (getLineWrapWidth (Some 80) - 1) - 5 div (getLineWrapWidth (Some 80) - 1)"
  by (simp add: run_defs onStartColumn_def)

text \<open>
  Claim C4, amended. For every terminal width \<open>W\<close>, buffer length \<open>L\<close> and start column
  \<open>startColumn < W - 1\<close>, and a mask character that is not a line break (with the empty
  mask, a buffer that holds no line break), the render pass emits exactly
  \<open>floor((startColumn + L) / (W - 1)) - floor(startColumn / (W - 1))\<close> line breaks: that
  is the number of line breaks in the text it writes and the number of rows it counts in
  \<open>_printedY\<close>. The second conjunct gives the number of line breaks written for every mask
  and buffer: the rows, and the line breaks of the mask characters or of the echoed
  buffer.
\<close>

theorem wrap_count_law:
  assumes "startX loop < getLineWrapWidth columns - 1"
  shows "printedY (snd (renderPass columns loop)) =
           (startX loop + length (result loop)) div (getLineWrapWidth columns - 1)
             - startX loop div (getLineWrapWidth columns - 1) \<and>
         length (filter (\<lambda>c. c = LF) (written (fst (renderPass columns loop)))) =
           (startX loop + length (result loop)) div (getLineWrapWidth columns - 1)
             - startX loop div (getLineWrapWidth columns - 1)
             + (if maskOf (p_options loop) = [] then length (filter (\<lambda>c. c = LF) (result loop))
                else length (result loop) * length (filter (\<lambda>c. c = LF) (maskOf (p_options loop)))) \<and>
         (maskOf (p_options loop) \<noteq> [] \<and> LF \<notin> set (maskOf (p_options loop)) \<longrightarrow>
            length (filter (\<lambda>c. c = LF) (written (fst (renderPass columns loop)))) =
              (startX loop + length (result loop)) div (getLineWrapWidth columns - 1)
                - startX loop div (getLineWrapWidth columns - 1)) \<and>
         (maskOf (p_options loop) = [] \<and> LF \<notin> set (result loop) \<longrightarrow>
            length (filter (\<lambda>c. c = LF) (written (fst (renderPass columns loop)))) =
              (startX loop + length (result loop)) div (getLineWrapWidth columns - 1)
                - startX loop div (getLineWrapWidth columns - 1))"
proof -
  have w: "0 < getLineWrapWidth columns - 1" using assms by simp
  have m: "min (startX loop) (getLineWrapWidth columns - 1 - 1) = startX loop"
    using assms by simp
  have rows: "printedY (snd (renderPass columns loop)) =
           (startX loop + length (result loop)) div (getLineWrapWidth columns - 1)
             - startX loop div (getLineWrapWidth columns - 1)"
    using assms by (simp only: renderPass_rows [OF w] m) simp
  have none: "LF \<notin> set xs \<Longrightarrow> filter (\<lambda>c. c = LF) xs = []" for xs :: string
    by (auto simp: filter_empty_conv)
  have all: "length (filter (\<lambda>c. c = LF) (written (fst (renderPass columns loop)))) =
           (startX loop + length (result loop)) div (getLineWrapWidth columns - 1)
             - startX loop div (getLineWrapWidth columns - 1)
             + (if maskOf (p_options loop) = [] then length (filter (\<lambda>c. c = LF) (result loop))
                else length (result loop) * length (filter (\<lambda>c. c = LF) (maskOf (p_options loop))))"
    by (simp only: renderPass_breaks_all rows)
  show ?thesis
  proof (intro conjI impI)
    show "printedY (snd (renderPass columns loop)) =
           (startX loop + length (result loop)) div (getLineWrapWidth columns - 1)
             - startX loop div (getLineWrapWidth columns - 1)"
      by (rule rows)
    show "length (filter (\<lambda>c. c = LF) (written (fst (renderPass columns loop)))) =
           (startX loop + length (result loop)) div (getLineWrapWidth columns - 1)
             - startX loop div (getLineWrapWidth columns - 1)
             + (if maskOf (p_options loop) = [] then length (filter (\<lambda>c. c = LF) (result loop))
                else length (result loop) * length (filter (\<lambda>c. c = LF) (maskOf (p_options loop))))"
      by (rule all)
  next
    assume "maskOf (p_options loop) \<noteq> [] \<and> LF \<notin> set (maskOf (p_options loop))"
    then show "length (filter (\<lambda>c. c = LF) (written (fst (renderPass columns loop)))) =
              (startX loop + length (result loop)) div (getLineWrapWidth columns - 1)
                - startX loop div (getLineWrapWidth columns - 1)"
      by (simp add: all none)
  next
    assume "maskOf (p_options loop) = [] \<and> LF \<notin> set (result loop)"
    then show "length (filter (\<lambda>c. c = LF) (written (fst (renderPass columns loop)))) =
              (startX loop + length (result loop)) div (getLineWrapWidth columns - 1)
                - startX loop div (getLineWrapWidth columns - 1)"
      by (simp add: all none)
  qed
qed

text \<open>
  Width 10, start column 5, a buffer of 13 characters: two line breaks, with the mask
  \<open>*\<close> and with the empty mask.
\<close>

theorem wrap_count_law_witness:
  "startX ((newPasswordKeyboardLoop starOptions 5)\<lparr>result := ''abcdefghijklm''\<rparr>)
     < getLineWrapWidth (Some 10) - 1 \<and>
   maskOf (p_options ((newPasswordKeyboardLoop starOptions 5)\<lparr>result := ''abcdefghijklm''\<rparr>)) \<noteq> [] \<and>
   LF \<notin> set (maskOf (p_options ((newPasswordKeyboardLoop starOptions 5)\<lparr>result := ''abcdefghijklm''\<rparr>))) \<and>
   printedY (snd (renderPass (Some 10)
     ((newPasswordKeyboardLoop starOptions 5)\<lparr>result := ''abcdefghijklm''\<rparr>))) = 2 \<and>
   length (filter (\<lambda>c. c = LF) (written (fst (renderPass (Some 10)
     ((newPasswordKeyboardLoop starOptions 5)\<lparr>result := ''abcdefghijklm''\<rparr>))))) = 2 \<and>
   startX ((newPasswordKeyboardLoop echoOptions 5)\<lparr>result := ''abcdefghijklm''\<rparr>)
     < getLineWrapWidth (Some 10) - 1 \<and>
   maskOf (p_options ((newPasswordKeyboardLoop echoOptions 5)\<lparr>result := ''abcdefghijklm''\<rparr>)) = [] \<and>
   LF \<notin> set (result ((newPasswordKeyboardLoop echoOptions 5)\<lparr>result := ''abcdefghijklm''\<rparr>)) \<and>
   length (filter (\<lambda>c. c = LF) (written (fst (renderPass (Some 10)
     ((newPasswordKeyboardLoop echoOptions 5)\<lparr>result := ''abcdefghijklm''\<rparr>))))) = 2"
proof -
  have h: "startX ((newPasswordKeyboardLoop starOptions 5)\<lparr>result := ''abcdefghijklm''\<rparr>)
     < getLineWrapWidth (Some 10) - 1"
    by (simp add: newPasswordKeyboardLoop_def getLineWrapWidth_def)
  have m: "maskOf (p_options ((newPasswordKeyboardLoop starOptions 5)\<lparr>result := ''abcdefghijklm''\<rparr>)) = ''*''"
    by (simp add: newPasswordKeyboardLoop_def starOptions_def maskOf_def substr_def)
  have h': "startX ((newPasswordKeyboardLoop echoOptions 5)\<lparr>result := ''abcdefghijklm''\<rparr>)
     < getLineWrapWidth (Some 10) - 1"
    by (simp add: newPasswordKeyboardLoop_def getLineWrapWidth_def)
  have m': "maskOf (p_options ((newPasswordKeyboardLoop echoOptions 5)\<lparr>result := ''abcdefghijklm''\<rparr>)) = []"
    by (simp add: newPasswordKeyboardLoop_def echoOptions_def maskOf_def substr_def)
  have r': "LF \<notin> set (result ((newPasswordKeyboardLoop echoOptions 5)\<lparr>result := ''abcdefghijklm''\<rparr>))"
    by (simp add: newPasswordKeyboardLoop_def)
  have star: "printedY (snd (renderPass (Some 10)
       ((newPasswordKeyboardLoop starOptions 5)\<lparr>result := ''abcdefghijklm''\<rparr>))) = 2 \<and>
     length (filter (\<lambda>c. c = LF) (written (fst (renderPass (Some 10)
       ((newPasswordKeyboardLoop starOptions 5)\<lparr>result := ''abcdefghijklm''\<rparr>))))) = 2"
    using wrap_count_law [OF h] m
    by (simp add: newPasswordKeyboardLoop_def getLineWrapWidth_def)
  have echo: "length (filter (\<lambda>c. c = LF) (written (fst (renderPass (Some 10)
       ((newPasswordKeyboardLoop echoOptions 5)\<lparr>result := ''abcdefghijklm''\<rparr>))))) = 2"
    using wrap_count_law [OF h'] m' r'
    by (simp add: newPasswordKeyboardLoop_def getLineWrapWidth_def)
  show ?thesis
    using h m h' m' r' star echo by simp
qed

subsection \<open>C5: the third scenario\<close>

text \<open>
  Claim C5, as stated, says that the column counter reaches 9 with the fifth character
  and that the wrap occurs there. In the code the row count is already 1 once four
  characters are typed, and the counter, reset to 0 by that wrap, is 1 after the fifth.
\<close>

theorem scenario_three_counterexample:
  "\<not> (printedY (snd (deliver (passwordOnKeypress (Some 10)) (newPasswordKeyboardLoop starOptions 5)
            (map typed ''abcd''))) = 0 \<and>
      fst (renderLoop (Some 10) ''*'' ''abcd'' 0 5 0 []) + 1 = 9)"
  by (simp add: run_defs)

text \<open>
  Claim C5, amended. Mask \<open>*\<close>, width 10, start column 5, typing \<open>abcdef\<close>: after three
  characters the column counter is 8 and no row is counted; the fourth character takes it
  to 9, the wrap occurs there (the counter is reset to 0, the row count is 1 and the text
  written is four stars and a line break); after the fifth the counter is 1; after all six
  \<open>_printedY\<close> is 1 and the text written is four stars, a line break, two stars.
\<close>

theorem scenario_three:
  "printedY (snd (deliver (passwordOnKeypress (Some 10)) (newPasswordKeyboardLoop starOptions 5)
       (map typed ''abc''))) = 0 \<and>
   fst (renderLoop (Some 10) ''*'' ''abc'' 0 5 0 []) = 8 \<and>
   renderLoop (Some 10) ''*'' ''abcd'' 0 5 0 [] = (0, 1, ''****'' @ [LF]) \<and>
   printedY (snd (deliver (passwordOnKeypress (Some 10)) (newPasswordKeyboardLoop starOptions 5)
       (map typed ''abcd''))) = 1 \<and>
   fst (renderLoop (Some 10) ''*'' ''abcde'' 0 5 0 []) = 1 \<and>
   printedY (snd (deliver (passwordOnKeypress (Some 10)) (newPasswordKeyboardLoop starOptions 5)
       (map typed ''abcdef''))) = 1 \<and>
   result (snd (deliver (passwordOnKeypress (Some 10)) (newPasswordKeyboardLoop starOptions 5)
       (map typed ''abcdef''))) = ''abcdef'' \<and>
   written (fst (passwordOnKeypress (Some 10)
       (snd (deliver (passwordOnKeypress (Some 10)) (newPasswordKeyboardLoop starOptions 5)
          (map typed ''abcde'')))
       (typed CHR ''f''))) = ''****'' @ [LF] @ ''**''"
  by (simp add: run_defs)

theorem scenario_three_witness:
  "printedY (snd (deliver (passwordOnKeypress (Some 10)) (newPasswordKeyboardLoop starOptions 5)
       (map typed ''abcdef''))) = 1 \<and>
   renderLoop (Some 10) ''*'' ''abcd'' 0 5 0 [] = (0, 1, ''****'' @ [LF])"
  using scenario_three by simp

subsection \<open>C6: the printability rule\<close>

text \<open>
  Claim C6. An event is to be classified as printable exactly when its character value is
  not empty, and it carries no named key or the named key has length 1 or is \<open>space\<close>, and
  it carries a named key or a raw sequence. For an event whose character is a string the
  code does that (\<open>printable_rule_defined\<close> above). An event whose character is
  \<open>undefined\<close> has no character value to insert, yet the test of line 129 is the strict
  comparison with the empty string, which \<open>undefined\<close> passes: Alt and \<open>a\<close> (character
  \<open>undefined\<close>, name \<open>a\<close>) is classified as printable, line 138 appends the nine letters
  \<open>undefined\<close> to the buffer, nine stars are written, and that text is what
  \<open>promptPasswordLine\<close> returns after \<open>Return\<close>.
\<close>

theorem printable_undefined_character:
  "fst altAKey = None \<and>
   printable (fst altAKey) (snd altAKey) \<and>
   passwordOnKeypress (Some 80) (newPasswordKeyboardLoop starOptions 5) altAKey =
     ([HideCursor, CursorTo 5, Write ''*********'', UnhideCursor],
      \<lparr>resolved = False, p_options = starOptions, startX = 5, printedY = 0,
         lastPrintedLength = 9, result = ''undefined''\<rparr>) \<and>
   promptPasswordLine (Some 80) starOptions 5 [[altAKey], [returnKey]] = Some ''undefined''"
  by (simp add: run_defs altAKey_def promptPasswordLine_def)

subsection \<open>C7: Backspace\<close>

text \<open>
  Claim C7. A Backspace keystroke on the empty buffer leaves it empty (its length stays 0),
  and on a buffer that is not empty it removes exactly the last code unit; nothing is
  appended by the keystroke.
\<close>

theorem backspace_removes_last:
  "name key = Some ''backspace'' \<Longrightarrow>
     result (snd (passwordOnKeypress columns loop (character, key))) = butlast (result loop) \<and>
     length (result (snd (passwordOnKeypress columns loop (character, key)))) = length (result loop) - 1 \<and>
     (result loop = [] \<longrightarrow> result (snd (passwordOnKeypress columns loop (character, key))) = [])"
  by (simp add: passwordOnKeypress_result backspace_not_printable)

theorem backspace_removes_last_witness:
  "name (snd backspaceKey) = Some ''backspace'' \<and>
   result (newPasswordKeyboardLoop starOptions 5) = [] \<and>
   result (snd (passwordOnKeypress (Some 80) (newPasswordKeyboardLoop starOptions 5)
             (fst backspaceKey, snd backspaceKey))) = [] \<and>
   result (snd (passwordOnKeypress (Some 80) ((newPasswordKeyboardLoop starOptions 5)\<lparr>result := ''ab''\<rparr>)
             (fst backspaceKey, snd backspaceKey))) = ''a''"
proof -
  have h: "name (snd backspaceKey) = Some ''backspace''"
    by (simp add: backspaceKey_def)
  show ?thesis
    using h
      backspace_removes_last [OF h, of "Some 80" "newPasswordKeyboardLoop starOptions 5" "fst backspaceKey"]
      backspace_removes_last [OF h, of "Some 80" "(newPasswordKeyboardLoop starOptions 5)\<lparr>result := ''ab''\<rparr>"
        "fst backspaceKey"]
    by (simp add: newPasswordKeyboardLoop_def)
qed

subsection \<open>C8: the mask character\<close>

text \<open>
  Claim C8. For the loop with options \<open>opts\<close>: when the mask option is undefined the mask
  is \<open>*\<close> and the text written by the render pass, line breaks removed, is one \<open>*\<close> for each
  code unit of the buffer; when the option has one character or more the mask is its first
  character, whatever follows (nothing is rejected), and that character is written for each
  code unit (for a mask that is not itself a line break); when the option is the empty
  string the text written, line breaks removed, is the buffer itself, line breaks removed.
\<close>

theorem mask_character_rule:
  assumes "p_options loop = opts"
  shows "(passwordCharacter opts = None \<longrightarrow>
            maskOf opts = ''*'' \<and>
            filter (\<lambda>c. c \<noteq> LF) (written (fst (renderPass columns loop))) =
              replicate (length (result loop)) CHR ''*'') \<and>
         (\<forall>c cs. passwordCharacter opts = Some (c # cs) \<longrightarrow>
            maskOf opts = [c] \<and>
            (c \<noteq> LF \<longrightarrow>
               filter (\<lambda>c. c \<noteq> LF) (written (fst (renderPass columns loop))) =
                 replicate (length (result loop)) c)) \<and>
         (passwordCharacter opts = Some [] \<longrightarrow>
            maskOf opts = [] \<and>
            filter (\<lambda>c. c \<noteq> LF) (written (fst (renderPass columns loop))) =
              filter (\<lambda>c. c \<noteq> LF) (result loop))"
proof (intro conjI allI impI)
  assume "passwordCharacter opts = None"
  then show "maskOf opts = ''*''" by (simp add: maskOf_cases)
  then show "filter (\<lambda>c. c \<noteq> LF) (written (fst (renderPass columns loop))) =
      replicate (length (result loop)) CHR ''*''"
    using assms by (simp add: renderPass_single_mask)
next
  fix c cs
  assume "passwordCharacter opts = Some (c # cs)"
  then show m: "maskOf opts = [c]" by (simp add: maskOf_cases)
  assume "c \<noteq> LF"
  with m show "filter (\<lambda>c. c \<noteq> LF) (written (fst (renderPass columns loop))) =
      replicate (length (result loop)) c"
    using assms by (simp add: renderPass_single_mask)
next
  assume "passwordCharacter opts = Some []"
  then show m: "maskOf opts = []" by (simp add: maskOf_cases)
  then show "filter (\<lambda>c. c \<noteq> LF) (written (fst (renderPass columns loop))) =
      filter (\<lambda>c. c \<noteq> LF) (result loop)"
    using assms by (simp add: renderPass_written renderLoop_echo)
qed

text \<open>
  The fourth scenario of the specification, the empty mask with the buffer \<open>hi\<close>, which is
  written as \<open>hi\<close>; the mask option \<open>#!\<close>, which is cut to \<open>#\<close>; and no mask option.
\<close>

theorem mask_character_rule_witness:
  "p_options ((newPasswordKeyboardLoop echoOptions 5)\<lparr>result := ''hi''\<rparr>) = echoOptions \<and>
   passwordCharacter echoOptions = Some [] \<and>
   filter (\<lambda>c. c \<noteq> LF)
     (written (fst (renderPass (Some 80) ((newPasswordKeyboardLoop echoOptions 5)\<lparr>result := ''hi''\<rparr>)))) = ''hi'' \<and>
   maskOf \<lparr>question = ''Password:'', passwordCharacter = Some ''#!''\<rparr> = ''#'' \<and>
   filter (\<lambda>c. c \<noteq> LF)
     (written (fst (renderPass (Some 80)
        ((newPasswordKeyboardLoop \<lparr>question = ''Password:'', passwordCharacter = Some ''#!''\<rparr> 5)
           \<lparr>result := ''hi''\<rparr>)))) = ''##'' \<and>
   maskOf \<lparr>question = ''Password:'', passwordCharacter = None\<rparr> = ''*''"
proof -
  have e: "p_options ((newPasswordKeyboardLoop echoOptions 5)\<lparr>result := ''hi''\<rparr>) = echoOptions"
    by (simp add: newPasswordKeyboardLoop_def)
  have h: "p_options ((newPasswordKeyboardLoop \<lparr>question = ''Password:'', passwordCharacter = Some ''#!''\<rparr> 5)
           \<lparr>result := ''hi''\<rparr>) = \<lparr>question = ''Password:'', passwordCharacter = Some ''#!''\<rparr>"
    by (simp add: newPasswordKeyboardLoop_def)
  have n: "p_options (newPasswordKeyboardLoop \<lparr>question = ''Password:'', passwordCharacter = None\<rparr> 5) =
      \<lparr>question = ''Password:'', passwordCharacter = None\<rparr>"
    by (simp add: newPasswordKeyboardLoop_def)
  have p: "passwordCharacter echoOptions = Some []"
    by (simp add: echoOptions_def)
  show ?thesis
    using e p mask_character_rule [OF e, of "Some 80"] mask_character_rule [OF h, of "Some 80"]
      mask_character_rule [OF n, of "Some 80"]
    by (simp add: newPasswordKeyboardLoop_def)
qed

subsection \<open>C9: rendering again\<close>

text \<open>
  Claim C9. Take the loop after any sequence of keystrokes, at any start column and any
  terminal width, and run the render pass twice in a row without a change to the buffer
  (a keystroke that edits nothing, such as Tab, does exactly that): both passes send the
  same operations to the terminal, text and cursor movements alike, and each leaves the
  loop as it found it.
\<close>

theorem rerender_idempotent:
  "fst (renderPass columns
          (snd (deliver (passwordOnKeypress columns) (newPasswordKeyboardLoop opts x) evs))) =
     fst (renderPass columns
            (snd (renderPass columns
                    (snd (deliver (passwordOnKeypress columns) (newPasswordKeyboardLoop opts x) evs))))) \<and>
   snd (renderPass columns
          (snd (deliver (passwordOnKeypress columns) (newPasswordKeyboardLoop opts x) evs))) =
     snd (deliver (passwordOnKeypress columns) (newPasswordKeyboardLoop opts x) evs) \<and>
   fst (passwordOnKeypress columns
          (snd (deliver (passwordOnKeypress columns) (newPasswordKeyboardLoop opts x) evs)) tabKey) =
     fst (passwordOnKeypress columns
            (snd (passwordOnKeypress columns
                    (snd (deliver (passwordOnKeypress columns) (newPasswordKeyboardLoop opts x) evs)) tabKey))
            tabKey)"
proof -
  let ?loop = "snd (deliver (passwordOnKeypress columns) (newPasswordKeyboardLoop opts x) evs)"
  have same: "snd (renderPass columns ?loop) = ?loop"
    using deliver_settled [OF new_settled] by (rule renderPass_settled_same)
  have tab: "passwordOnKeypress columns l tabKey = renderPass columns l" for l
    unfolding tabKey_def
    by (rule idle_key_rerenders) (simp_all add: printable_def truthy_def)
  show ?thesis
    by (simp add: same tab)
qed

text \<open>Width 10, start column 5: six characters typed, one removed, then two passes.\<close>

theorem rerender_idempotent_witness:
  "fst (renderPass (Some 10)
          (snd (deliver (passwordOnKeypress (Some 10)) (newPasswordKeyboardLoop starOptions 5)
                  (map typed ''abcdef'' @ [backspaceKey])))) =
     [HideCursor, CursorTo 0, MoveCursor 0 (- 1), CursorTo 5, Write (''****'' @ [LF] @ ''*''), UnhideCursor] \<and>
   fst (renderPass (Some 10)
          (snd (renderPass (Some 10)
             (snd (deliver (passwordOnKeypress (Some 10)) (newPasswordKeyboardLoop starOptions 5)
                     (map typed ''abcdef'' @ [backspaceKey])))))) =
     [HideCursor, CursorTo 0, MoveCursor 0 (- 1), CursorTo 5, Write (''****'' @ [LF] @ ''*''), UnhideCursor]"
proof -
  have first: "fst (renderPass (Some 10)
          (snd (deliver (passwordOnKeypress (Some 10)) (newPasswordKeyboardLoop starOptions 5)
                  (map typed ''abcdef'' @ [backspaceKey])))) =
     [HideCursor, CursorTo 0, MoveCursor 0 (- 1), CursorTo 5, Write (''****'' @ [LF] @ ''*''), UnhideCursor]"
    by (simp add: run_defs)
  show ?thesis
    using first
      rerender_idempotent [of "Some 10" starOptions 5 "map typed ''abcdef'' @ [backspaceKey]"]
    by simp
qed

subsection \<open>C10: the answer is defined when the loop resolves\<close>

text \<open>
  Claim C10. \<open>promptYesNo\<close> never returns \<open>undefined\<close>: whatever the keystrokes and their
  batches, when the loop has resolved its \<open>result\<close> field holds a boolean, because
  \<open>resolveAsync\<close> is called only after \<open>result\<close> was assigned.
\<close>

theorem promptYesNo_defined:
  "promptYesNo opts batches \<noteq> Some None \<and>
   (resolved (snd (deliver yesNoOnKeypress (newYesNoKeyboardLoop opts) evs)) \<longrightarrow>
      YesNoKeyboardLoop.result (snd (deliver yesNoOnKeypress (newYesNoKeyboardLoop opts) evs)) \<noteq> None)"
proof
  have init: "resolved (newYesNoKeyboardLoop opts) \<longrightarrow> YesNoKeyboardLoop.result (newYesNoKeyboardLoop opts) \<noteq> None"
    by (simp add: newYesNoKeyboardLoop_def)
  show "promptYesNo opts batches \<noteq> Some None"
    using yesNo_startAsync_defined [OF init] by (auto simp: promptYesNo_def)
  show "resolved (snd (deliver yesNoOnKeypress (newYesNoKeyboardLoop opts) evs)) \<longrightarrow>
      YesNoKeyboardLoop.result (snd (deliver yesNoOnKeypress (newYesNoKeyboardLoop opts) evs)) \<noteq> None"
    using init by (rule yesNo_deliver_defined)
qed

text \<open>The keys \<open>Return\<close> and \<open>y\<close> with no default: the loop resolves, with \<open>true\<close>.\<close>

theorem promptYesNo_defined_witness:
  "resolved (snd (deliver yesNoOnKeypress (newYesNoKeyboardLoop noDefault) [returnKey, typed CHR ''y''])) \<and>
   YesNoKeyboardLoop.result
     (snd (deliver yesNoOnKeypress (newYesNoKeyboardLoop noDefault) [returnKey, typed CHR ''y''])) \<noteq> None \<and>
   promptYesNo noDefault [[returnKey, typed CHR ''y'']] \<noteq> Some None"
proof -
  have r: "resolved (snd (deliver yesNoOnKeypress (newYesNoKeyboardLoop noDefault) [returnKey, typed CHR ''y'']))"
    by (simp add: yesNoOnKeypress_def newYesNoKeyboardLoop_def noDefault_def returnKey_def typed_def
          resolveAsync_def)
  show ?thesis
    using r promptYesNo_defined [of noDefault "[[returnKey, typed CHR ''y'']]" "[returnKey, typed CHR ''y'']"]
    by simp
qed

end
